theory Spec2Isabelle
  imports Main "HOL-Library.AList" "HOL-Library.Word"
begin

section \<open>Errors\<close>

text \<open>
  The Go code builds its errors with \<^verbatim>\<open>errors.New\<close>, \<^verbatim>\<open>errors.Errorf\<close>,
  \<^verbatim>\<open>errors.Wrapf\<close> and \<^verbatim>\<open>kerrors.NewAggregate\<close>. An error value is modelled by
  the call that built it: the format string is kept verbatim and the arguments are kept
  beside it, unrendered. A \<^verbatim>\<open>nil\<close> error is \<open>None\<close>.
\<close>

datatype error =
    New string
  | Errorf string "string list"
  | Wrapf error string "string list"
  | Aggregate "error list"

text \<open>\<^verbatim>\<open>kerrors.NewAggregate\<close>: an empty list gives \<^verbatim>\<open>nil\<close>.\<close>

definition NewAggregate :: "error list \<Rightarrow> error option" where
  "NewAggregate errlist = (if errlist = [] then None else Some (Aggregate errlist))"

text \<open>
  The text produced by \<^verbatim>\<open>fmt.Sprintf\<close> with an error argument (\<^verbatim>\<open>%v\<close>) is kept
  the same way: the format string and the errors it is applied to.
\<close>

datatype message = Sprintf string "error list"

section \<open>Data model\<close>

text \<open>
  Field names carry a prefix naming their struct, since several Go structs share
  the field names \<^verbatim>\<open>Name\<close>, \<^verbatim>\<open>Hook\<close>, \<^verbatim>\<open>Group\<close>.
\<close>

type_synonym bytes = "8 word list"

text \<open>
  Modelled from the spec: the API types of the packages \<^verbatim>\<open>runtimev1\<close> and
  \<^verbatim>\<open>runtimecatalog\<close> (the config, its handlers, its client config and its
  conditions, and the group/version/hook triples) are declared in files that are not
  part of the sources. They are given with the fields that the registry and the
  reconciler read and write: a config has a name, a connection descriptor with a trust
  bundle, annotations, and a status with the discovered handlers and the conditions.
\<close>

text \<open>\<^verbatim>\<open>schema.GroupVersion\<close>\<close>

record GroupVersion =
  gv_Group :: string
  gv_Version :: string

text \<open>\<^verbatim>\<open>runtimecatalog.GroupVersionHook\<close> and \<^verbatim>\<open>runtimecatalog.GroupHook\<close>\<close>

record GroupVersionHook =
  gvh_Group :: string
  gvh_Version :: string
  gvh_Hook :: string

record GroupHook =
  gh_Group :: string
  gh_Hook :: string

text \<open>\<^verbatim>\<open>runtimev1.GroupVersionHook\<close>, the type of \<^verbatim>\<open>ExtensionHandler.RequestHook\<close>\<close>

record RequestHook =
  rh_APIVersion :: string
  rh_Hook :: string

record ClientConfig =
  cc_URL :: "string option"
  cc_CABundle :: bytes

record ExtensionHandler =
  h_Name :: string
  h_RequestHook :: RequestHook
  h_TimeoutSeconds :: "32 word option"
  h_FailurePolicy :: "string option"

datatype ConditionStatus = ConditionTrue | ConditionFalse | ConditionUnknown

text \<open>\<^verbatim>\<open>metav1.Condition\<close>\<close>

record Condition =
  cond_Type :: string
  cond_Status :: ConditionStatus
  cond_Reason :: string
  cond_Message :: message

text \<open>\<^verbatim>\<open>clusterv1.Condition\<close>, the deprecated v1beta1 condition\<close>

record V1Beta1Condition =
  vc_Type :: string
  vc_Status :: ConditionStatus
  vc_Severity :: string
  vc_Reason :: string
  vc_Message :: message

record ExtensionConfigSpec =
  spec_ClientConfig :: ClientConfig

record ExtensionConfigStatus =
  status_Handlers :: "ExtensionHandler list"
  status_Conditions :: "Condition list"
  status_V1Beta1Conditions :: "V1Beta1Condition list"

record ExtensionConfig =
  cfg_Name :: string
  cfg_Namespace :: string
  cfg_Annotations :: "string \<rightharpoonup> string"
  cfg_DeletionTimestamp :: "nat option"
  cfg_Spec :: ExtensionConfigSpec
  cfg_Status :: ExtensionConfigStatus

text \<open>\<^verbatim>\<open>ExtensionConfigList\<close>: the \<^verbatim>\<open>Items\<close> of the list.\<close>

type_synonym ExtensionConfigList = "ExtensionConfig list"

text \<open>\<^verbatim>\<open>ExtensionRegistration\<close>\<close>

record ExtensionRegistration =
  reg_Name :: string
  reg_ExtensionConfigName :: string
  reg_GroupVersionHook :: GroupVersionHook
  reg_ClientConfig :: ClientConfig
  reg_TimeoutSeconds :: "32 word option"
  reg_FailurePolicy :: "string option"

text \<open>
  \<^verbatim>\<open>extensionRegistry\<close>: the readiness flag and the Go map from handler name to
  registration. The map is an association list: \<^verbatim>\<open>m[k] = v\<close> is \<^const>\<open>AList.update\<close>,
  \<^verbatim>\<open>delete(m, k)\<close> is \<^const>\<open>AList.delete\<close>, a lookup is \<^const>\<open>map_of\<close>, and a
  \<^verbatim>\<open>range\<close> loop visits the entries in the order of the list (Go leaves the order open).
  The lock is not modelled: every operation runs as one critical section.
\<close>

record extensionRegistry =
  ready :: bool
  items :: "(string \<times> ExtensionRegistration) list"

section \<open>The registry\<close>

text \<open>\<^verbatim>\<open>New\<close> returns a cold registry with an empty map.\<close>

definition New_registry :: extensionRegistry where
  "New_registry = \<lparr>ready = False, items = []\<rparr>"

text \<open>
  \<^verbatim>\<open>remove\<close> ranges over the map and deletes the key \<^verbatim>\<open>e.Name\<close> of every entry whose
  owner is the given config. The first list holds the entries the loop has not reached:
  an entry deleted before it is reached is not visited.
\<close>

function remove_loop ::
  "string \<Rightarrow> (string \<times> ExtensionRegistration) list \<Rightarrow> (string \<times> ExtensionRegistration) list
    \<Rightarrow> (string \<times> ExtensionRegistration) list" where
  "remove_loop n [] m = m"
| "remove_loop n ((k, e) # rest) m =
     (if reg_ExtensionConfigName e = n
      then remove_loop n (AList.delete (reg_Name e) rest) (AList.delete (reg_Name e) m)
      else remove_loop n rest m)"
  by pat_completeness auto
termination
  by (relation "measure (\<lambda>(n, p, m). length p)")
     (simp_all add: less_Suc_eq_le length_delete_le)

definition remove :: "extensionRegistry \<Rightarrow> ExtensionConfig \<Rightarrow> extensionRegistry" where
  "remove r extensionConfig =
     r\<lparr>items := remove_loop (cfg_Name extensionConfig) (items r) (items r)\<rparr>"

text \<open>
  The handler loop of \<^verbatim>\<open>add\<close>: every handler's API version is parsed; a failure is
  wrapped and collected, a success appends a registration. The parser
  \<^verbatim>\<open>schema.ParseGroupVersion\<close> is library code and is a parameter of the model.
\<close>

type_synonym parser = "string \<Rightarrow> error + GroupVersion"

definition mk_registration ::
  "ExtensionConfig \<Rightarrow> ExtensionHandler \<Rightarrow> GroupVersion \<Rightarrow> ExtensionRegistration" where
  "mk_registration extensionConfig e gv =
     \<lparr>reg_Name = h_Name e,
      reg_ExtensionConfigName = cfg_Name extensionConfig,
      reg_GroupVersionHook =
        \<lparr>gvh_Group = gv_Group gv, gvh_Version = gv_Version gv,
         gvh_Hook = rh_Hook (h_RequestHook e)\<rparr>,
      reg_ClientConfig = spec_ClientConfig (cfg_Spec extensionConfig),
      reg_TimeoutSeconds = h_TimeoutSeconds e,
      reg_FailurePolicy = h_FailurePolicy e\<rparr>"

fun add_loop ::
  "parser \<Rightarrow> ExtensionConfig \<Rightarrow> ExtensionHandler list \<Rightarrow> error list \<Rightarrow> ExtensionRegistration list
    \<Rightarrow> error list \<times> ExtensionRegistration list" where
  "add_loop pgv extensionConfig [] allErrs registrations = (allErrs, registrations)"
| "add_loop pgv extensionConfig (e # es) allErrs registrations =
     (case pgv (rh_APIVersion (h_RequestHook e)) of
        Inl err \<Rightarrow>
          add_loop pgv extensionConfig es
            (allErrs @ [Wrapf err ''failed to parse GroupVersion %q'' [rh_APIVersion (h_RequestHook e)]])
            registrations
      | Inr gv \<Rightarrow>
          add_loop pgv extensionConfig es allErrs
            (registrations @ [mk_registration extensionConfig e gv]))"

text \<open>The final loop of \<^verbatim>\<open>add\<close>: \<^verbatim>\<open>r.items[registration.Name] = registration\<close>.\<close>

fun insert_loop ::
  "ExtensionRegistration list \<Rightarrow> (string \<times> ExtensionRegistration) list
    \<Rightarrow> (string \<times> ExtensionRegistration) list" where
  "insert_loop [] m = m"
| "insert_loop (registration # rest) m =
     insert_loop rest (AList.update (reg_Name registration) registration m)"

definition add :: "parser \<Rightarrow> extensionRegistry \<Rightarrow> ExtensionConfig \<Rightarrow> error option \<times> extensionRegistry" where
  "add pgv r extensionConfig =
     (let r1 = remove r extensionConfig;
          (allErrs, registrations) =
             add_loop pgv extensionConfig (status_Handlers (cfg_Status extensionConfig)) [] []
      in if length allErrs > 0 then (NewAggregate allErrs, r1)
         else (None, r1\<lparr>items := insert_loop registrations (items r1)\<rparr>))"

text \<open>The config loop of \<^verbatim>\<open>WarmUp\<close>: \<^verbatim>\<open>add\<close> on every item, the errors collected.\<close>

fun WarmUp_loop ::
  "parser \<Rightarrow> ExtensionConfig list \<Rightarrow> extensionRegistry \<Rightarrow> error list
    \<Rightarrow> error list \<times> extensionRegistry" where
  "WarmUp_loop pgv [] r allErrs = (allErrs, r)"
| "WarmUp_loop pgv (c # cs) r allErrs =
     (case add pgv r c of
        (Some err, r') \<Rightarrow> WarmUp_loop pgv cs r' (allErrs @ [err])
      | (None, r') \<Rightarrow> WarmUp_loop pgv cs r' allErrs)"

text \<open>The public operations. A \<^verbatim>\<open>nil\<close> pointer argument is \<open>None\<close>.\<close>

definition WarmUp ::
  "parser \<Rightarrow> extensionRegistry \<Rightarrow> ExtensionConfigList option \<Rightarrow> error option \<times> extensionRegistry" where
  "WarmUp pgv r extensionConfigList =
     (case extensionConfigList of
        None \<Rightarrow>
          (Some (New ''invalid argument: when calling WarmUp extensionConfigList must not be nil''), r)
      | Some l \<Rightarrow>
          if ready r
          then (Some (New ''invalid operation: WarmUp cannot be called on a registry which has already been warmed up''), r)
          else (let (allErrs, r') = WarmUp_loop pgv l r []
                in if length allErrs > 0 then (NewAggregate allErrs, r'\<lparr>items := []\<rparr>)
                   else (None, r'\<lparr>ready := True\<rparr>)))"

definition IsReady :: "extensionRegistry \<Rightarrow> bool" where
  "IsReady r = ready r"

definition Add ::
  "parser \<Rightarrow> extensionRegistry \<Rightarrow> ExtensionConfig option \<Rightarrow> error option \<times> extensionRegistry" where
  "Add pgv r extensionConfig =
     (case extensionConfig of
        None \<Rightarrow> (Some (New ''invalid argument: when calling Add extensionConfig must not be nil''), r)
      | Some c \<Rightarrow>
          if \<not> ready r
          then (Some (New ''invalid operation: Add cannot be called on a registry which has not been warmed up''), r)
          else add pgv r c)"

definition Remove ::
  "extensionRegistry \<Rightarrow> ExtensionConfig option \<Rightarrow> error option \<times> extensionRegistry" where
  "Remove r extensionConfig =
     (case extensionConfig of
        None \<Rightarrow> (Some (New ''invalid argument: when calling Remove extensionConfig must not be nil''), r)
      | Some c \<Rightarrow>
          if \<not> ready r
          then (Some (New ''invalid operation: Remove cannot be called on a registry which has not been warmed up''), r)
          else (None, remove r c))"

text \<open>The loop of \<^verbatim>\<open>List\<close>: the entries whose group and hook are the ones asked for.\<close>

fun List_loop ::
  "GroupHook \<Rightarrow> (string \<times> ExtensionRegistration) list \<Rightarrow> ExtensionRegistration list
    \<Rightarrow> ExtensionRegistration list" where
  "List_loop gh [] l = l"
| "List_loop gh ((k, registration) # rest) l =
     (if gvh_Group (reg_GroupVersionHook registration) = gh_Group gh
         \<and> gvh_Hook (reg_GroupVersionHook registration) = gh_Hook gh
      then List_loop gh rest (l @ [registration])
      else List_loop gh rest l)"

definition List_registry ::
  "extensionRegistry \<Rightarrow> GroupHook \<Rightarrow> error + ExtensionRegistration list" where
  "List_registry r gh =
     (if gh_Group gh = []
      then Inl (New ''invalid argument: when calling List gh.Group must not be empty'')
      else if gh_Hook gh = []
      then Inl (New ''invalid argument: when calling List gh.Hook must not be empty'')
      else if \<not> ready r
      then Inl (New ''invalid operation: List cannot be called on a registry which has not been warmed up'')
      else Inr (List_loop gh (items r) []))"

definition Get :: "extensionRegistry \<Rightarrow> string \<Rightarrow> error + ExtensionRegistration" where
  "Get r name =
     (if \<not> ready r
      then Inl (New ''invalid operation: Get cannot called on a registry not yet ready'')
      else case map_of (items r) name of
             None \<Rightarrow> Inl (Errorf ''RuntimeExtension with name %q has not been registered'' [name])
           | Some registration \<Rightarrow> Inr registration)"

section \<open>The reconciler\<close>

text \<open>
  The reconciler talks to collaborators that are not part of the sources: the
  object store (\<^verbatim>\<open>Client.Get\<close> for the config and for the secret), the pause check,
  the discovery call and the patch helper. Their outcomes are fields of an environment;
  every call the reconciler makes is recorded, in order, as an event.
\<close>

record NamespacedName =
  nn_Namespace :: string
  nn_Name :: string

text \<open>\<^verbatim>\<open>ctrl.Request\<close> embeds a \<^verbatim>\<open>NamespacedName\<close> and has no other field.\<close>

type_synonym Request = NamespacedName

record Result =
  Requeue :: bool
  RequeueAfter :: nat

record Secret =
  secret_Data :: "string \<rightharpoonup> bytes"

record env =
  Client_Get :: "NamespacedName \<Rightarrow> error + ExtensionConfig"
  IsNotFound :: "error \<Rightarrow> bool"
  EnsurePausedCondition :: "ExtensionConfig \<Rightarrow> (bool \<times> bool \<times> error option) \<times> ExtensionConfig"
  Client_GetSecret :: "NamespacedName \<Rightarrow> error + Secret"
  Discover :: "ExtensionConfig \<Rightarrow> error + ExtensionConfig"
  Patch :: "ExtensionConfig \<Rightarrow> ExtensionConfig \<Rightarrow> error option"

datatype event =
    GetConfig NamespacedName
  | PausedCheck ExtensionConfig
  | GetSecret NamespacedName
  | DiscoverCall ExtensionConfig
  | PatchCall ExtensionConfig ExtensionConfig
  | RegisterCall ExtensionConfig
  | UnregisterCall ExtensionConfig

text \<open>What one call of \<^verbatim>\<open>Reconcile\<close> returns and leaves behind.\<close>

record outcome =
  out_Result :: Result
  out_err :: "error option"
  out_registry :: extensionRegistry
  out_events :: "event list"

definition tlsCAKey :: string where
  "tlsCAKey = ''ca.crt''"

text \<open>
  Modelled from the spec: the constants of package \<^verbatim>\<open>runtimev1\<close> and \<^verbatim>\<open>clusterv1\<close>
  that name the annotation, the "Discovered" condition and its reasons are declared
  in files that are not part of the sources.
\<close>

definition InjectCAFromSecretAnnotation :: string where
  "InjectCAFromSecretAnnotation = ''runtime.cluster.x-k8s.io/inject-ca-from-secret''"

definition ExtensionConfigDiscoveredCondition :: string where
  "ExtensionConfigDiscoveredCondition = ''Discovered''"

definition ExtensionConfigDiscoveredReason :: string where
  "ExtensionConfigDiscoveredReason = ''Discovered''"

definition ExtensionConfigNotDiscoveredReason :: string where
  "ExtensionConfigNotDiscoveredReason = ''NotDiscovered''"

definition RuntimeExtensionDiscoveredV1Beta1Condition :: string where
  "RuntimeExtensionDiscoveredV1Beta1Condition = ''Discovered''"

definition DiscoveryFailedV1Beta1Reason :: string where
  "DiscoveryFailedV1Beta1Reason = ''DiscoveryFailed''"

definition ConditionSeverityError :: string where
  "ConditionSeverityError = ''Error''"

text \<open>
  Modelled from the spec: \<^verbatim>\<open>conditions.Set\<close>, \<^verbatim>\<open>v1beta1conditions.MarkFalse\<close> and
  \<^verbatim>\<open>v1beta1conditions.MarkTrue\<close> are not part of the sources. The spec asks for a
  status condition with a state, a reason and a message, attached to the config object:
  setting a condition replaces the one of the same type, or adds it.
\<close>

fun upsert :: "('a \<Rightarrow> string) \<Rightarrow> 'a \<Rightarrow> 'a list \<Rightarrow> 'a list" where
  "upsert ty c [] = [c]"
| "upsert ty c (x # xs) = (if ty x = ty c then c # xs else x # upsert ty c xs)"

definition conditions_Set :: "ExtensionConfig \<Rightarrow> Condition \<Rightarrow> ExtensionConfig" where
  "conditions_Set obj c =
     obj\<lparr>cfg_Status := (cfg_Status obj)
       \<lparr>status_Conditions := upsert cond_Type c (status_Conditions (cfg_Status obj))\<rparr>\<rparr>"

definition v1beta1conditions_Set :: "ExtensionConfig \<Rightarrow> V1Beta1Condition \<Rightarrow> ExtensionConfig" where
  "v1beta1conditions_Set obj c =
     obj\<lparr>cfg_Status := (cfg_Status obj)
       \<lparr>status_V1Beta1Conditions := upsert vc_Type c (status_V1Beta1Conditions (cfg_Status obj))\<rparr>\<rparr>"

definition MarkFalse ::
  "ExtensionConfig \<Rightarrow> string \<Rightarrow> string \<Rightarrow> string \<Rightarrow> message \<Rightarrow> ExtensionConfig" where
  "MarkFalse obj t reason severity msg =
     v1beta1conditions_Set obj
       \<lparr>vc_Type = t, vc_Status = ConditionFalse, vc_Severity = severity,
        vc_Reason = reason, vc_Message = msg\<rparr>"

definition MarkTrue :: "ExtensionConfig \<Rightarrow> string \<Rightarrow> ExtensionConfig" where
  "MarkTrue obj t =
     v1beta1conditions_Set obj
       \<lparr>vc_Type = t, vc_Status = ConditionTrue, vc_Severity = [],
        vc_Reason = [], vc_Message = Sprintf [] []\<rparr>"

definition conditions_Get :: "ExtensionConfig \<Rightarrow> string \<Rightarrow> Condition option" where
  "conditions_Get obj t = find (\<lambda>c. cond_Type c = t) (status_Conditions (cfg_Status obj))"

text \<open>
  \<^verbatim>\<open>klog.KObj\<close> prints an object as \<^verbatim>\<open>namespace/name\<close>, or as its name alone when it
  has no namespace.
\<close>

definition KObj :: "ExtensionConfig \<Rightarrow> string" where
  "KObj obj =
     (if cfg_Namespace obj \<noteq> [] then cfg_Namespace obj @ ''/'' @ cfg_Name obj else cfg_Name obj)"

text \<open>
  Modelled from the spec: the runtime client is not part of the sources. Its
  \<^verbatim>\<open>IsReady\<close>, \<^verbatim>\<open>Register\<close> and \<^verbatim>\<open>Unregister\<close> are the registry's readiness flag,
  \<^verbatim>\<open>Add\<close> and \<^verbatim>\<open>Remove\<close>.
\<close>

definition RuntimeClient_IsReady :: "extensionRegistry \<Rightarrow> bool" where
  "RuntimeClient_IsReady r = IsReady r"

definition Register ::
  "parser \<Rightarrow> extensionRegistry \<Rightarrow> ExtensionConfig \<Rightarrow> error option \<times> extensionRegistry" where
  "Register pgv r extensionConfig = Add pgv r (Some extensionConfig)"

definition Unregister ::
  "extensionRegistry \<Rightarrow> ExtensionConfig \<Rightarrow> error option \<times> extensionRegistry" where
  "Unregister r extensionConfig = Remove r (Some extensionConfig)"

text \<open>\<^verbatim>\<open>metav1.Time.IsZero\<close>: a nil pointer or the zero time.\<close>

definition IsZero :: "nat option \<Rightarrow> bool" where
  "IsZero t = (case t of None \<Rightarrow> True | Some n \<Rightarrow> n = 0)"

text \<open>The zero value \<^verbatim>\<open>&runtimev1.ExtensionConfig{}\<close>.\<close>

definition empty_ExtensionConfig :: ExtensionConfig where
  "empty_ExtensionConfig =
     \<lparr>cfg_Name = [], cfg_Namespace = [], cfg_Annotations = Map.empty,
      cfg_DeletionTimestamp = None,
      cfg_Spec = \<lparr>spec_ClientConfig = \<lparr>cc_URL = None, cc_CABundle = []\<rparr>\<rparr>,
      cfg_Status = \<lparr>status_Handlers = [], status_Conditions = [], status_V1Beta1Conditions = []\<rparr>\<rparr>"

definition splitNamespacedName :: "string \<Rightarrow> NamespacedName" where
  "splitNamespacedName nameStr =
     (if CHR ''/'' \<notin> set nameStr
      then \<lparr>nn_Namespace = [], nn_Name = nameStr\<rparr>
      else \<lparr>nn_Namespace = takeWhile (\<lambda>c. c \<noteq> CHR ''/'') nameStr,
            nn_Name = tl (dropWhile (\<lambda>c. c \<noteq> CHR ''/'') nameStr)\<rparr>)"

text \<open>
  \<^verbatim>\<open>reconcileCABundle\<close> returns its error, the config (with the CA bundle injected on
  success) and the calls it made.
\<close>

definition reconcileCABundle ::
  "env \<Rightarrow> ExtensionConfig \<Rightarrow> error option \<times> ExtensionConfig \<times> event list" where
  "reconcileCABundle e config =
     (case cfg_Annotations config InjectCAFromSecretAnnotation of
        None \<Rightarrow> (None, config, [])
      | Some secretNameRaw \<Rightarrow>
          (let secretName = splitNamespacedName secretNameRaw
           in if nn_Namespace secretName = [] \<or> nn_Name secretName = []
              then (Some (Errorf ''failed to reconcile caBundle: secret name %q must be in the form <namespace>/<name>''
                            [secretNameRaw]), config, [])
              else case Client_GetSecret e secretName of
                     Inl err \<Rightarrow>
                       (Some (Wrapf err ''failed to reconcile caBundle: failed to get secret %q'' [secretNameRaw]),
                        config, [GetSecret secretName])
                   | Inr secret \<Rightarrow>
                       (case secret_Data secret tlsCAKey of
                          None \<Rightarrow>
                            (Some (Errorf ''failed to reconcile caBundle: secret %s does not contain a %q entry''
                                     [secretNameRaw, tlsCAKey]),
                             config, [GetSecret secretName])
                        | Some caData \<Rightarrow>
                            (None,
                             config\<lparr>cfg_Spec := (cfg_Spec config)
                               \<lparr>spec_ClientConfig :=
                                  (spec_ClientConfig (cfg_Spec config))\<lparr>cc_CABundle := caData\<rparr>\<rparr>\<rparr>,
                             [GetSecret secretName]))))"

definition discoverExtensionConfig ::
  "env \<Rightarrow> ExtensionConfig \<Rightarrow> ExtensionConfig \<times> error option" where
  "discoverExtensionConfig e extensionConfig =
     (case Discover e extensionConfig of
        Inl err \<Rightarrow>
          (conditions_Set
             (MarkFalse extensionConfig RuntimeExtensionDiscoveredV1Beta1Condition
                DiscoveryFailedV1Beta1Reason ConditionSeverityError
                (Sprintf ''Error in discovery: %v'' [err]))
             \<lparr>cond_Type = ExtensionConfigDiscoveredCondition, cond_Status = ConditionFalse,
              cond_Reason = ExtensionConfigNotDiscoveredReason,
              cond_Message = Sprintf ''Error in discovery: %v'' [err]\<rparr>,
           Some (Wrapf err ''failed to discover ExtensionConfig %s'' [KObj extensionConfig]))
      | Inr discoveredExtension \<Rightarrow>
          (conditions_Set
             (MarkTrue discoveredExtension RuntimeExtensionDiscoveredV1Beta1Condition)
             \<lparr>cond_Type = ExtensionConfigDiscoveredCondition, cond_Status = ConditionTrue,
              cond_Reason = ExtensionConfigDiscoveredReason, cond_Message = Sprintf [] []\<rparr>,
           None))"

text \<open>
  \<^verbatim>\<open>patchExtensionConfig\<close> builds a patch helper on the original and patches the
  modified object; the joint outcome of the two library calls is the environment's
  \<^const>\<open>Patch\<close>.
\<close>

definition patchExtensionConfig :: "env \<Rightarrow> ExtensionConfig \<Rightarrow> ExtensionConfig \<Rightarrow> error option" where
  "patchExtensionConfig e original modified = Patch e original modified"

definition reconcileDelete :: "extensionRegistry \<Rightarrow> ExtensionConfig \<Rightarrow> outcome" where
  "reconcileDelete r extensionConfig =
     (case Unregister r extensionConfig of
        (Some err, r') \<Rightarrow>
          \<lparr>out_Result = \<lparr>Requeue = False, RequeueAfter = 0\<rparr>,
           out_err = Some (Wrapf err ''failed to unregister ExtensionConfig %s'' [KObj extensionConfig]),
           out_registry = r', out_events = [UnregisterCall extensionConfig]\<rparr>
      | (None, r') \<Rightarrow>
          \<lparr>out_Result = \<lparr>Requeue = False, RequeueAfter = 0\<rparr>, out_err = None,
           out_registry = r', out_events = [UnregisterCall extensionConfig]\<rparr>)"

definition with_events :: "event list \<Rightarrow> outcome \<Rightarrow> outcome" where
  "with_events evs out = out\<lparr>out_events := evs @ out_events out\<rparr>"

text \<open>
  The last part of \<^verbatim>\<open>Reconcile\<close>: discovery, the patch that is always made, and the
  registration when both went well.
\<close>

definition reconcile_discover ::
  "parser \<Rightarrow> env \<Rightarrow> extensionRegistry \<Rightarrow> ExtensionConfig \<Rightarrow> ExtensionConfig \<Rightarrow> outcome" where
  "reconcile_discover pgv e r original extensionConfig =
     (let (discoveredExtensionConfig, derr) = discoverExtensionConfig e extensionConfig;
          errs = (case derr of None \<Rightarrow> [] | Some err \<Rightarrow> [err]);
          perr = patchExtensionConfig e original discoveredExtensionConfig;
          errs = (case perr of None \<Rightarrow> errs | Some err \<Rightarrow> errs @ [err]);
          evs = [DiscoverCall extensionConfig, PatchCall original discoveredExtensionConfig]
      in if length errs \<noteq> 0
         then \<lparr>out_Result = \<lparr>Requeue = False, RequeueAfter = 0\<rparr>, out_err = NewAggregate errs,
               out_registry = r, out_events = evs\<rparr>
         else case Register pgv r discoveredExtensionConfig of
                (Some err, r') \<Rightarrow>
                  \<lparr>out_Result = \<lparr>Requeue = False, RequeueAfter = 0\<rparr>,
                   out_err = Some (Wrapf err ''failed to register ExtensionConfig %s/%s''
                                     [cfg_Namespace extensionConfig, cfg_Name extensionConfig]),
                   out_registry = r',
                   out_events = evs @ [RegisterCall discoveredExtensionConfig]\<rparr>
              | (None, r') \<Rightarrow>
                  \<lparr>out_Result = \<lparr>Requeue = False, RequeueAfter = 0\<rparr>, out_err = None,
                   out_registry = r',
                   out_events = evs @ [RegisterCall discoveredExtensionConfig]\<rparr>)"

definition Reconcile :: "parser \<Rightarrow> env \<Rightarrow> extensionRegistry \<Rightarrow> Request \<Rightarrow> outcome" where
  "Reconcile pgv e r req =
     (if \<not> RuntimeClient_IsReady r
      then \<lparr>out_Result = \<lparr>Requeue = True, RequeueAfter = 0\<rparr>, out_err = None,
            out_registry = r, out_events = []\<rparr>
      else case Client_Get e req of
             Inl err \<Rightarrow>
               if IsNotFound e err
               then with_events [GetConfig req]
                      (reconcileDelete r
                         (empty_ExtensionConfig\<lparr>cfg_Name := nn_Name req, cfg_Namespace := nn_Namespace req\<rparr>))
               else \<lparr>out_Result = \<lparr>Requeue = False, RequeueAfter = 0\<rparr>, out_err = Some err,
                     out_registry = r, out_events = [GetConfig req]\<rparr>
           | Inr fetched \<Rightarrow>
               (let original = fetched;
                    ((isPaused, requeue, err), extensionConfig) = EnsurePausedCondition e fetched;
                    evs = [GetConfig req, PausedCheck fetched]
                in if err \<noteq> None \<or> isPaused \<or> requeue
                   then \<lparr>out_Result = \<lparr>Requeue = False, RequeueAfter = 0\<rparr>, out_err = err,
                         out_registry = r, out_events = evs\<rparr>
                   else if \<not> IsZero (cfg_DeletionTimestamp extensionConfig)
                   then with_events evs (reconcileDelete r extensionConfig)
                   else case reconcileCABundle e extensionConfig of
                          (Some err, _, cevs) \<Rightarrow>
                            \<lparr>out_Result = \<lparr>Requeue = False, RequeueAfter = 0\<rparr>, out_err = Some err,
                             out_registry = r, out_events = evs @ cevs\<rparr>
                        | (None, extensionConfig, cevs) \<Rightarrow>
                            with_events (evs @ cevs)
                              (reconcile_discover pgv e r original extensionConfig)))"

section \<open>Notions used to state the properties\<close>

text \<open>The errors and the registrations that the handler loop of \<^verbatim>\<open>add\<close> produces.\<close>

fun parse_errors :: "parser \<Rightarrow> ExtensionHandler list \<Rightarrow> error list" where
  "parse_errors pgv [] = []"
| "parse_errors pgv (e # es) =
     (case pgv (rh_APIVersion (h_RequestHook e)) of
        Inl err \<Rightarrow>
          Wrapf err ''failed to parse GroupVersion %q'' [rh_APIVersion (h_RequestHook e)]
            # parse_errors pgv es
      | Inr gv \<Rightarrow> parse_errors pgv es)"

fun build_registrations ::
  "parser \<Rightarrow> ExtensionConfig \<Rightarrow> ExtensionHandler list \<Rightarrow> ExtensionRegistration list" where
  "build_registrations pgv c [] = []"
| "build_registrations pgv c (e # es) =
     (case pgv (rh_APIVersion (h_RequestHook e)) of
        Inl err \<Rightarrow> build_registrations pgv c es
      | Inr gv \<Rightarrow> mk_registration c e gv # build_registrations pgv c es)"

text \<open>Every handler of the config has an API version that parses.\<close>

definition parseable :: "parser \<Rightarrow> ExtensionConfig \<Rightarrow> bool" where
  "parseable pgv c =
     list_all (\<lambda>e. \<not> isl (pgv (rh_APIVersion (h_RequestHook e)))) (status_Handlers (cfg_Status c))"

text \<open>The entry is owned by the config of that name.\<close>

definition owned_by :: "string \<Rightarrow> string \<times> ExtensionRegistration \<Rightarrow> bool" where
  "owned_by n p = (reg_ExtensionConfigName (snd p) = n)"

text \<open>
  The map of a registry holds each key once, and every registration sits under its own
  name: \<^verbatim>\<open>New\<close> starts with an empty map and \<^verbatim>\<open>add\<close> is the only code that inserts.
\<close>

definition keyed_by_name :: "(string \<times> ExtensionRegistration) list \<Rightarrow> bool" where
  "keyed_by_name m = list_all (\<lambda>p. reg_Name (snd p) = fst p) m"

definition wf_registry :: "extensionRegistry \<Rightarrow> bool" where
  "wf_registry r = (distinct (map fst (items r)) \<and> keyed_by_name (items r))"

text \<open>The entry is registered for that group and hook.\<close>

definition matches :: "GroupHook \<Rightarrow> string \<times> ExtensionRegistration \<Rightarrow> bool" where
  "matches gh q =
     (gvh_Group (reg_GroupVersionHook (snd q)) = gh_Group gh
      \<and> gvh_Hook (reg_GroupVersionHook (snd q)) = gh_Hook gh)"

section \<open>Concrete inputs\<close>

text \<open>
  Modelled from the spec: \<^verbatim>\<open>schema.ParseGroupVersion\<close> is library code that is not
  part of the sources, and the spec says only that an API-version string parses into a group
  and a version, or fails. The properties below hold for every parser; this one, which
  accepts \<^verbatim>\<open>version\<close> and \<^verbatim>\<open>group/version\<close> and refuses a string with more than one
  slash, instantiates them at concrete inputs.
\<close>

definition ParseGroupVersion :: parser where
  "ParseGroupVersion gv =
     (if length gv = 0 \<or> gv = ''/''
      then Inr \<lparr>gv_Group = [], gv_Version = []\<rparr>
      else case count_list gv (CHR ''/'') of
             0 \<Rightarrow> Inr \<lparr>gv_Group = [], gv_Version = gv\<rparr>
           | Suc 0 \<Rightarrow>
               Inr \<lparr>gv_Group = takeWhile (\<lambda>c. c \<noteq> CHR ''/'') gv,
                    gv_Version = tl (dropWhile (\<lambda>c. c \<noteq> CHR ''/'') gv)\<rparr>
           | Suc (Suc n) \<Rightarrow> Inl (Errorf ''unexpected GroupVersion string: %s'' [gv]))"

definition handler :: "string \<Rightarrow> string \<Rightarrow> string \<Rightarrow> ExtensionHandler" where
  "handler name apiVersion hook =
     \<lparr>h_Name = name, h_RequestHook = \<lparr>rh_APIVersion = apiVersion, rh_Hook = hook\<rparr>,
      h_TimeoutSeconds = None, h_FailurePolicy = None\<rparr>"

definition config :: "string \<Rightarrow> ExtensionHandler list \<Rightarrow> ExtensionConfig" where
  "config name hs =
     \<lparr>cfg_Name = name, cfg_Namespace = [], cfg_Annotations = Map.empty,
      cfg_DeletionTimestamp = None,
      cfg_Spec = \<lparr>spec_ClientConfig = \<lparr>cc_URL = None, cc_CABundle = []\<rparr>\<rparr>,
      cfg_Status = \<lparr>status_Handlers = hs, status_Conditions = [], status_V1Beta1Conditions = []\<rparr>\<rparr>"

text \<open>
  Two configs whose handlers share the group and the hook, in two versions; a third
  version of the first config with a handler whose API version has two slashes.
\<close>

definition cfg_A :: ExtensionConfig where
  "cfg_A = config ''A'' [handler ''h1'' ''g/v1'' ''BeforeScale'']"

definition cfg_B :: ExtensionConfig where
  "cfg_B = config ''B'' [handler ''h2'' ''g/v2'' ''BeforeScale'']"

definition cfg_A_bad :: ExtensionConfig where
  "cfg_A_bad =
     config ''A'' [handler ''h1'' ''g/v1'' ''BeforeScale'', handler ''h3'' ''g/v1/x'' ''BeforeScale'']"

definition registration :: "string \<Rightarrow> string \<Rightarrow> string \<Rightarrow> string \<Rightarrow> string \<Rightarrow> ExtensionRegistration" where
  "registration name owner g v hook =
     \<lparr>reg_Name = name, reg_ExtensionConfigName = owner,
      reg_GroupVersionHook = \<lparr>gvh_Group = g, gvh_Version = v, gvh_Hook = hook\<rparr>,
      reg_ClientConfig = \<lparr>cc_URL = None, cc_CABundle = []\<rparr>,
      reg_TimeoutSeconds = None, reg_FailurePolicy = None\<rparr>"

text \<open>The registry after a warm-up with the two good configs.\<close>

definition warm_registry :: extensionRegistry where
  "warm_registry =
     \<lparr>ready = True,
      items = [(''h1'', registration ''h1'' ''A'' ''g'' ''v1'' ''BeforeScale''),
               (''h2'', registration ''h2'' ''B'' ''g'' ''v2'' ''BeforeScale'')]\<rparr>"

text \<open>
  A config whose annotation names the secret \<^verbatim>\<open>ns/ca\<close>, and two environments: in the
  first the secret exists and has no data; in the second the fetched config has no
  annotation and the discovery call fails.
\<close>

definition cfg_S :: ExtensionConfig where
  "cfg_S = (config ''S'' [])\<lparr>cfg_Annotations := [InjectCAFromSecretAnnotation \<mapsto> ''ns/ca'']\<rparr>"

definition env_no_ca_key :: env where
  "env_no_ca_key =
     \<lparr>Client_Get = (\<lambda>n. Inr cfg_S), IsNotFound = (\<lambda>err. False),
      EnsurePausedCondition = (\<lambda>c. ((False, False, None), c)),
      Client_GetSecret = (\<lambda>n. Inr \<lparr>secret_Data = Map.empty\<rparr>),
      Discover = (\<lambda>c. Inr c), Patch = (\<lambda>original modified. None)\<rparr>"

definition env_discovery_fails :: env where
  "env_discovery_fails =
     \<lparr>Client_Get = (\<lambda>n. Inr cfg_A), IsNotFound = (\<lambda>err. False),
      EnsurePausedCondition = (\<lambda>c. ((False, False, None), c)),
      Client_GetSecret = (\<lambda>n. Inl (New ''no secret'')),
      Discover = (\<lambda>c. Inl (New ''connection refused'')),
      Patch = (\<lambda>original modified. None)\<rparr>"

section \<open>Reachable registries\<close>

text \<open>The registries that the public operations produce from a new one.\<close>

inductive reachable :: "parser \<Rightarrow> extensionRegistry \<Rightarrow> bool" for pgv :: parser where
  reachable_New: "reachable pgv New_registry"
| reachable_WarmUp: "reachable pgv r \<Longrightarrow> reachable pgv (snd (WarmUp pgv r l))"
| reachable_Add: "reachable pgv r \<Longrightarrow> reachable pgv (snd (Add pgv r c))"
| reachable_Remove: "reachable pgv r \<Longrightarrow> reachable pgv (snd (Remove r c))"

section \<open>The loops of the registry in closed form\<close>

lemma add_loop_eq:
  "add_loop pgv c hs errs regs = (errs @ parse_errors pgv hs, regs @ build_registrations pgv c hs)"
  by (induction hs arbitrary: errs regs) (auto split: sum.splits)

lemma parse_errors_Nil_iff:
  "parse_errors pgv hs = [] \<longleftrightarrow> list_all (\<lambda>e. \<not> isl (pgv (rh_APIVersion (h_RequestHook e)))) hs"
  by (induction hs) (auto split: sum.splits)

lemma add_eq:
  "add pgv r c =
     (if parseable pgv c
      then (None, (remove r c)\<lparr>items := insert_loop (build_registrations pgv c (status_Handlers (cfg_Status c))) (items (remove r c))\<rparr>)
      else (Some (Aggregate (parse_errors pgv (status_Handlers (cfg_Status c)))), remove r c))"
  by (simp add: add_def add_loop_eq parseable_def parse_errors_Nil_iff [symmetric] NewAggregate_def Let_def)

lemma ready_remove: "ready (remove r c) = ready r"
  by (simp add: remove_def)

lemma ready_add: "ready (snd (add pgv r c)) = ready r"
  by (simp add: add_eq ready_remove)

lemma fst_add_None_iff: "fst (add pgv r c) = None \<longleftrightarrow> parseable pgv c"
  by (simp add: add_eq)

lemma WarmUp_loop_ready: "ready (snd (WarmUp_loop pgv cs r errs)) = ready r"
proof (induction cs arbitrary: r errs)
  case Nil
  show ?case by simp
next
  case (Cons c cs)
  show ?case
    using ready_add [of pgv r c]
    by (cases "add pgv r c") (auto simp: Cons.IH split: option.splits)
qed

lemma WarmUp_loop_errs:
  "fst (WarmUp_loop pgv cs r errs) = [] \<longleftrightarrow> errs = [] \<and> list_all (parseable pgv) cs"
proof (induction cs arbitrary: r errs)
  case Nil
  show ?case by simp
next
  case (Cons c cs)
  show ?case
    using fst_add_None_iff [of pgv r c]
    by (cases "add pgv r c") (auto simp: Cons.IH split: option.splits)
qed

lemma keyed_by_name_delete: "keyed_by_name m \<Longrightarrow> keyed_by_name (AList.delete k m)"
  by (simp add: keyed_by_name_def AList.delete_eq list_all_iff)

lemma remove_loop_filter:
  "keyed_by_name p \<Longrightarrow>
   remove_loop n p m = filter (\<lambda>q. fst q \<notin> fst ` {x \<in> set p. owned_by n x}) m"
proof (induction n p m rule: remove_loop.induct)
  case (1 n m)
  show ?case by simp
next
  case (2 n k e rest m)
  from "2.prems" have name: "reg_Name e = k" and rest: "keyed_by_name rest"
    by (simp_all add: keyed_by_name_def)
  show ?case
  proof (cases "reg_ExtensionConfigName e = n")
    case True
    have "remove_loop n ((k, e) # rest) m =
            remove_loop n (AList.delete k rest) (AList.delete k m)"
      using True name by simp
    also have "\<dots> = filter (\<lambda>q. fst q \<notin> fst ` {x \<in> set (AList.delete k rest). owned_by n x})
                        (AList.delete k m)"
      using "2.IH"(1) [OF True] keyed_by_name_delete [OF rest] name by simp
    also have "\<dots> = filter (\<lambda>q. fst q \<notin> fst ` {x \<in> set ((k, e) # rest). owned_by n x}) m"
      using True by (auto simp: AList.delete_eq owned_by_def image_iff intro!: filter_cong)
    finally show ?thesis .
  next
    case False
    have "remove_loop n ((k, e) # rest) m = remove_loop n rest m"
      using False by simp
    also have "\<dots> = filter (\<lambda>q. fst q \<notin> fst ` {x \<in> set rest. owned_by n x}) m"
      using "2.IH"(2) [OF False] rest by simp
    also have "\<dots> = filter (\<lambda>q. fst q \<notin> fst ` {x \<in> set ((k, e) # rest). owned_by n x}) m"
      using False by (auto simp: owned_by_def intro!: filter_cong)
    finally show ?thesis .
  qed
qed

lemma remove_loop_owner:
  assumes "distinct (map fst m)" "keyed_by_name m"
  shows "remove_loop n m m = filter (\<lambda>q. \<not> owned_by n q) m"
proof -
  have "fst q \<notin> fst ` {x \<in> set m. owned_by n x} \<longleftrightarrow> \<not> owned_by n q" if "q \<in> set m" for q
  proof
    assume "fst q \<notin> fst ` {x \<in> set m. owned_by n x}"
    with that show "\<not> owned_by n q" by blast
  next
    assume no: "\<not> owned_by n q"
    show "fst q \<notin> fst ` {x \<in> set m. owned_by n x}"
    proof
      assume "fst q \<in> fst ` {x \<in> set m. owned_by n x}"
      then obtain x where x: "x \<in> set m" "owned_by n x" "fst x = fst q" by auto
      from assms(1) x(1) that x(3) have "x = q"
        by (metis eq_key_imp_eq_value prod.collapse)
      with x(2) no show False by simp
    qed
  qed
  then show ?thesis
    using remove_loop_filter [OF assms(2), of n m] by (auto intro!: filter_cong)
qed

lemma remove_eq:
  "wf_registry r \<Longrightarrow> remove r c = r\<lparr>items := filter (\<lambda>q. \<not> owned_by (cfg_Name c) q) (items r)\<rparr>"
  by (simp add: remove_def wf_registry_def remove_loop_owner)

lemma wf_remove: "wf_registry r \<Longrightarrow> wf_registry (remove r c)"
  by (simp add: remove_eq) (simp add: wf_registry_def keyed_by_name_def distinct_map_filter list_all_iff)

lemma set_update_subset: "set (AList.update k v al) \<subseteq> insert (k, v) (set al)"
  by (induction al) auto

lemma keyed_by_name_update:
  "keyed_by_name m \<Longrightarrow> keyed_by_name (AList.update (reg_Name e) e m)"
  using set_update_subset [of "reg_Name e" e m]
  by (auto simp: keyed_by_name_def list_all_iff)

lemma insert_loop_wf:
  "distinct (map fst m) \<Longrightarrow> keyed_by_name m \<Longrightarrow>
     distinct (map fst (insert_loop regs m)) \<and> keyed_by_name (insert_loop regs m)"
  by (induction regs arbitrary: m) (simp_all add: distinct_update keyed_by_name_update)

lemma wf_add: "wf_registry r \<Longrightarrow> wf_registry (snd (add pgv r c))"
  using wf_remove [of r c] insert_loop_wf
  by (simp add: add_eq wf_registry_def)

lemma wf_New: "wf_registry New_registry"
  by (simp add: wf_registry_def New_registry_def keyed_by_name_def)


lemma map_of_insert_loop:
  "map_of (insert_loop regs m) = map_of m ++ map_of (rev (map (\<lambda>e. (reg_Name e, e)) regs))"
proof (induction regs arbitrary: m)
  case Nil
  show ?case by simp
next
  case (Cons e regs)
  show ?case
    by (rule ext) (simp add: Cons.IH update_conv' map_add_def split: option.splits)
qed

lemma map_of_filter_not_owned:
  "distinct (map fst m) \<Longrightarrow>
   map_of (filter (\<lambda>q. \<not> owned_by n q) m) k =
     (case map_of m k of None \<Rightarrow> None
      | Some e \<Rightarrow> if reg_ExtensionConfigName e = n then None else Some e)"
proof (induction m)
  case Nil
  show ?case by simp
next
  case (Cons q m)
  obtain k' e' where q: "q = (k', e')" by (cases q)
  from Cons.prems q have k': "k' \<notin> fst ` set m" and d: "distinct (map fst m)" by auto
  have none: "map_of (filter (\<lambda>q. \<not> owned_by n q) m) k' = None"
    using k' by (auto simp: map_of_eq_None_iff)
  show ?case
    using Cons.IH [OF d] none by (auto simp: q owned_by_def)
qed

lemma add_twice_map_of:
  assumes wf: "wf_registry r" and ok: "parseable pgv c"
  shows "map_of (items (snd (add pgv (snd (add pgv r c)) c))) = map_of (items (snd (add pgv r c)))"
proof -
  let ?regs = "build_registrations pgv c (status_Handlers (cfg_Status c))"
  let ?U = "map_of (rev (map (\<lambda>e. (reg_Name e, e)) ?regs))"
  let ?n = "cfg_Name c"
  let ?r1 = "snd (add pgv r c)"
  have wf1: "wf_registry ?r1" using wf by (rule wf_add)
  have d0: "distinct (map fst (items r))" and d1: "distinct (map fst (items ?r1))"
    using wf wf1 by (simp_all add: wf_registry_def)
  have i1: "items ?r1 = insert_loop ?regs (filter (\<lambda>q. \<not> owned_by ?n q) (items r))"
    using ok wf by (simp add: add_eq remove_eq)
  have i2: "items (snd (add pgv ?r1 c)) =
              insert_loop ?regs (filter (\<lambda>q. \<not> owned_by ?n q) (items ?r1))"
    using ok wf1 by (simp add: add_eq remove_eq)
  show ?thesis
  proof
    fix k
    have m1: "map_of (items ?r1) k =
                (map_of (filter (\<lambda>q. \<not> owned_by ?n q) (items r)) ++ ?U) k"
      by (simp only: i1 map_of_insert_loop)
    have m2: "map_of (items (snd (add pgv ?r1 c))) k =
                (map_of (filter (\<lambda>q. \<not> owned_by ?n q) (items ?r1)) ++ ?U) k"
      by (simp only: i2 map_of_insert_loop)
    show "map_of (items (snd (add pgv ?r1 c))) k = map_of (items ?r1) k"
    proof (cases "?U k")
      case (Some e)
      then show ?thesis by (simp add: m1 m2 map_add_def)
    next
      case None
      have "map_of (filter (\<lambda>q. \<not> owned_by ?n q) (items ?r1)) k =
              map_of (filter (\<lambda>q. \<not> owned_by ?n q) (items r)) k"
        using None m1
        by (simp add: map_of_filter_not_owned [OF d1] map_of_filter_not_owned [OF d0]
              map_add_def split: option.splits)
      then show ?thesis using None by (simp add: m1 m2 map_add_def)
    qed
  qed
qed

lemma List_loop_eq:
  "List_loop gh m l =
     l @ map snd (filter (matches gh) m)"
  by (induction gh m l rule: List_loop.induct) (simp_all add: matches_def)


section \<open>Concrete registries and configs\<close>

lemmas ex_defs = ParseGroupVersion_def handler_def config_def cfg_A_def cfg_B_def cfg_A_bad_def
  registration_def warm_registry_def New_registry_def

lemma parseable_A: "parseable ParseGroupVersion cfg_A"
  by (simp add: parseable_def ex_defs)

lemma parseable_B: "parseable ParseGroupVersion cfg_B"
  by (simp add: parseable_def ex_defs)

lemma not_parseable_A_bad: "\<not> parseable ParseGroupVersion cfg_A_bad"
  by (simp add: parseable_def ex_defs)

lemma wf_warm: "wf_registry warm_registry"
  by (simp add: wf_registry_def keyed_by_name_def ex_defs)

lemma WarmUp_example:
  "WarmUp ParseGroupVersion New_registry (Some [cfg_A, cfg_B]) = (None, warm_registry)"
  by (simp add: WarmUp_def add_def remove_def NewAggregate_def mk_registration_def ex_defs)

lemma Add_bad_example:
  "Add ParseGroupVersion warm_registry (Some cfg_A_bad) =
    (Some (Aggregate [Wrapf (Errorf ''unexpected GroupVersion string: %s'' [''g/v1/x''])
        ''failed to parse GroupVersion %q'' [''g/v1/x'']]),
     \<lparr>ready = True, items = [(''h2'', registration ''h2'' ''B'' ''g'' ''v2'' ''BeforeScale'')]\<rparr>)"
  by (simp add: Add_def add_def remove_def NewAggregate_def mk_registration_def AList.delete_eq ex_defs)


lemma wf_WarmUp_loop: "wf_registry r \<Longrightarrow> wf_registry (snd (WarmUp_loop pgv cs r errs))"
proof (induction cs arbitrary: r errs)
  case Nil
  then show ?case by simp
next
  case (Cons c cs)
  from Cons.prems have "wf_registry (snd (add pgv r c))" by (rule wf_add)
  then show ?case
    by (cases "add pgv r c") (auto simp: Cons.IH split: option.splits)
qed

lemma wf_WarmUp: "wf_registry r \<Longrightarrow> wf_registry (snd (WarmUp pgv r l))"
proof (cases l)
  case None
  assume "wf_registry r"
  with None show ?thesis by (simp add: WarmUp_def)
next
  case (Some cs)
  assume wf: "wf_registry r"
  obtain errs r' where loop: "WarmUp_loop pgv cs r [] = (errs, r')"
    by (cases "WarmUp_loop pgv cs r []")
  from wf_WarmUp_loop [OF wf, of pgv cs "[]"] loop have "wf_registry r'" by simp
  then show ?thesis
    using wf Some loop
    by (simp add: WarmUp_def) (simp add: wf_registry_def keyed_by_name_def)
qed

lemma wf_Add: "wf_registry r \<Longrightarrow> wf_registry (snd (Add pgv r c))"
  by (cases c) (simp_all add: Add_def wf_add)

lemma wf_Remove: "wf_registry r \<Longrightarrow> wf_registry (snd (Remove r c))"
  by (cases c) (simp_all add: Remove_def wf_remove)

lemma reachable_wf: "reachable pgv r \<Longrightarrow> wf_registry r"
  by (induction rule: reachable.induct) (simp_all add: wf_New wf_WarmUp wf_Add wf_Remove)

lemma WarmUp_cold:
  assumes "\<not> ready r"
  shows "WarmUp pgv r (Some C) =
           (if list_all (parseable pgv) C
            then (None, (snd (WarmUp_loop pgv C r []))\<lparr>ready := True\<rparr>)
            else (Some (Aggregate (fst (WarmUp_loop pgv C r []))),
                  (snd (WarmUp_loop pgv C r []))\<lparr>items := []\<rparr>))"
  using assms WarmUp_loop_errs [of pgv C r "[]"]
  by (auto simp: WarmUp_def NewAggregate_def split: prod.splits)

text \<open>
  Claim C1. For a config list given to a registry that is not ready, \<^verbatim>\<open>WarmUp\<close> followed
  by \<^verbatim>\<open>IsReady\<close> gives true exactly when every handler of every config has an API
  version that parses. When some handler does not parse, \<^verbatim>\<open>WarmUp\<close> returns an
  aggregate error, the map is empty afterwards and the registry is still not ready.
\<close>
theorem WarmUp_ready_iff_parseable:
  assumes "\<not> ready r"
  shows "(IsReady (snd (WarmUp pgv r (Some C))) \<longleftrightarrow> list_all (parseable pgv) C)
       \<and> (\<not> list_all (parseable pgv) C \<longrightarrow>
            (\<exists>errs. errs \<noteq> [] \<and> fst (WarmUp pgv r (Some C)) = Some (Aggregate errs))
            \<and> items (snd (WarmUp pgv r (Some C))) = []
            \<and> \<not> IsReady (snd (WarmUp pgv r (Some C))))"
  using assms WarmUp_loop_errs [of pgv C r "[]"] WarmUp_loop_ready [of pgv C r "[]"]
  by (simp add: WarmUp_cold IsReady_def)

theorem WarmUp_ready_iff_parseable_witness:
  "\<not> ready New_registry
   \<and> IsReady (snd (WarmUp ParseGroupVersion New_registry (Some [cfg_A, cfg_B])))
   \<and> \<not> list_all (parseable ParseGroupVersion) [cfg_A, cfg_A_bad]
   \<and> items (snd (WarmUp ParseGroupVersion New_registry (Some [cfg_A, cfg_A_bad]))) = []
   \<and> \<not> IsReady (snd (WarmUp ParseGroupVersion New_registry (Some [cfg_A, cfg_A_bad])))"
proof -
  have cold: "\<not> ready New_registry" by (simp add: New_registry_def)
  show ?thesis
    using cold
      WarmUp_ready_iff_parseable [OF cold, of ParseGroupVersion "[cfg_A, cfg_B]"]
      WarmUp_ready_iff_parseable [OF cold, of ParseGroupVersion "[cfg_A, cfg_A_bad]"]
      parseable_A parseable_B not_parseable_A_bad
    by simp
qed

text \<open>
  Claim C10. After a \<^verbatim>\<open>WarmUp\<close> that failed, the registry is not ready and its map is
  empty; a second \<^verbatim>\<open>WarmUp\<close> is never refused as an invalid operation, and with a list
  of configs that all parse it succeeds and makes the registry ready.
\<close>
theorem WarmUp_retry_after_failure:
  assumes "\<not> ready r" and "fst (WarmUp pgv r (Some C1)) \<noteq> None"
    and "list_all (parseable pgv) C2"
  shows "\<not> ready (snd (WarmUp pgv r (Some C1)))
       \<and> items (snd (WarmUp pgv r (Some C1))) = []
       \<and> fst (WarmUp pgv (snd (WarmUp pgv r (Some C1))) (Some C2)) = None
       \<and> IsReady (snd (WarmUp pgv (snd (WarmUp pgv r (Some C1))) (Some C2)))
       \<and> fst (WarmUp pgv (snd (WarmUp pgv r (Some C1))) (Some C3))
           \<noteq> Some (New ''invalid operation: WarmUp cannot be called on a registry which has already been warmed up'')"
proof -
  let ?r1 = "snd (WarmUp pgv r (Some C1))"
  from assms(1,2) have bad: "\<not> list_all (parseable pgv) C1"
    by (simp add: WarmUp_cold split: if_splits)
  with assms(1) have cold: "\<not> ready ?r1" and empty: "items ?r1 = []"
    using WarmUp_loop_ready [of pgv C1 r "[]"] by (simp_all add: WarmUp_cold)
  from cold assms(3) have "fst (WarmUp pgv ?r1 (Some C2)) = None"
    and "IsReady (snd (WarmUp pgv ?r1 (Some C2)))"
    by (simp_all add: WarmUp_cold IsReady_def)
  moreover from cold have "fst (WarmUp pgv ?r1 (Some C3))
      \<noteq> Some (New ''invalid operation: WarmUp cannot be called on a registry which has already been warmed up'')"
    by (simp add: WarmUp_cold)
  ultimately show ?thesis using cold empty by simp
qed

theorem WarmUp_retry_after_failure_witness:
  "\<not> ready New_registry
   \<and> fst (WarmUp ParseGroupVersion New_registry (Some [cfg_A_bad])) \<noteq> None
   \<and> list_all (parseable ParseGroupVersion) [cfg_A, cfg_B]
   \<and> fst (WarmUp ParseGroupVersion
            (snd (WarmUp ParseGroupVersion New_registry (Some [cfg_A_bad]))) (Some [cfg_A, cfg_B])) = None
   \<and> IsReady (snd (WarmUp ParseGroupVersion
            (snd (WarmUp ParseGroupVersion New_registry (Some [cfg_A_bad]))) (Some [cfg_A, cfg_B])))"
proof -
  have cold: "\<not> ready New_registry" by (simp add: New_registry_def)
  have failed: "fst (WarmUp ParseGroupVersion New_registry (Some [cfg_A_bad])) \<noteq> None"
    using cold not_parseable_A_bad by (simp add: WarmUp_cold)
  have good: "list_all (parseable ParseGroupVersion) [cfg_A, cfg_B]"
    using parseable_A parseable_B by simp
  show ?thesis
    using cold failed good WarmUp_retry_after_failure [OF cold failed good] by simp
qed


text \<open>
  Claim C5. While the registry is not ready, \<^verbatim>\<open>Add\<close>, \<^verbatim>\<open>Remove\<close>, \<^verbatim>\<open>List\<close> and
  \<^verbatim>\<open>Get\<close> fail with their invalid-operation error and leave the registry as it is
  (with a nil config or an empty group or hook they fail too, with the argument error
  that is checked first). While the registry is ready, \<^verbatim>\<open>WarmUp\<close> fails with its
  invalid-operation error and leaves the registry as it is.
\<close>
theorem readiness_gates_lifecycle:
  "(\<not> ready r \<longrightarrow>
       Add pgv r (Some c) =
         (Some (New ''invalid operation: Add cannot be called on a registry which has not been warmed up''), r)
     \<and> Remove r (Some c) =
         (Some (New ''invalid operation: Remove cannot be called on a registry which has not been warmed up''), r)
     \<and> (gh_Group gh \<noteq> [] \<and> gh_Hook gh \<noteq> [] \<longrightarrow>
          List_registry r gh =
            Inl (New ''invalid operation: List cannot be called on a registry which has not been warmed up''))
     \<and> Get r name = Inl (New ''invalid operation: Get cannot called on a registry not yet ready'')
     \<and> fst (Add pgv r c') \<noteq> None \<and> snd (Add pgv r c') = r
     \<and> fst (Remove r c') \<noteq> None \<and> snd (Remove r c') = r
     \<and> isl (List_registry r gh))
   \<and> (ready r \<longrightarrow>
       WarmUp pgv r (Some l) =
         (Some (New ''invalid operation: WarmUp cannot be called on a registry which has already been warmed up''), r)
     \<and> fst (WarmUp pgv r l') \<noteq> None \<and> snd (WarmUp pgv r l') = r)"
  by (cases c'; cases l') (simp_all add: Add_def Remove_def List_registry_def Get_def WarmUp_def)

theorem readiness_gates_lifecycle_witness:
  "\<not> ready New_registry
   \<and> Add ParseGroupVersion New_registry (Some cfg_A) =
       (Some (New ''invalid operation: Add cannot be called on a registry which has not been warmed up''),
        New_registry)
   \<and> Remove New_registry (Some cfg_A) =
       (Some (New ''invalid operation: Remove cannot be called on a registry which has not been warmed up''),
        New_registry)
   \<and> List_registry New_registry \<lparr>gh_Group = ''g'', gh_Hook = ''BeforeScale''\<rparr> =
       Inl (New ''invalid operation: List cannot be called on a registry which has not been warmed up'')
   \<and> Get New_registry ''h1'' = Inl (New ''invalid operation: Get cannot called on a registry not yet ready'')
   \<and> ready warm_registry
   \<and> WarmUp ParseGroupVersion warm_registry (Some [cfg_A]) =
       (Some (New ''invalid operation: WarmUp cannot be called on a registry which has already been warmed up''),
        warm_registry)"
proof -
  have cold: "\<not> ready New_registry" by (simp add: New_registry_def)
  have warm: "ready warm_registry" by (simp add: warm_registry_def)
  show ?thesis
    using cold warm
      readiness_gates_lifecycle [where r = New_registry and pgv = ParseGroupVersion and c = cfg_A
        and gh = "\<lparr>gh_Group = ''g'', gh_Hook = ''BeforeScale''\<rparr>" and name = "''h1''"]
      readiness_gates_lifecycle [where r = warm_registry and pgv = ParseGroupVersion and l = "[cfg_A]"]
    by simp
qed

text \<open>
  Claim C6. On a ready registry and for a non-empty group and hook, \<^verbatim>\<open>List\<close> returns
  the registrations of the map whose group and hook are the ones asked for, whatever
  their version, and no other. It fails with an argument error when the group or the
  hook is empty, and with the invalid-operation error when the registry is not ready.
\<close>
theorem List_exact:
  "(ready r \<and> gh_Group gh \<noteq> [] \<and> gh_Hook gh \<noteq> [] \<longrightarrow>
       List_registry r gh = Inr (map snd (filter (matches gh) (items r)))
     \<and> set (map snd (filter (matches gh) (items r))) =
         {e \<in> snd ` set (items r).
            gvh_Group (reg_GroupVersionHook e) = gh_Group gh
            \<and> gvh_Hook (reg_GroupVersionHook e) = gh_Hook gh})
   \<and> (gh_Group gh = [] \<longrightarrow>
       List_registry r gh = Inl (New ''invalid argument: when calling List gh.Group must not be empty''))
   \<and> (gh_Group gh \<noteq> [] \<and> gh_Hook gh = [] \<longrightarrow>
       List_registry r gh = Inl (New ''invalid argument: when calling List gh.Hook must not be empty''))
   \<and> (gh_Group gh \<noteq> [] \<and> gh_Hook gh \<noteq> [] \<and> \<not> ready r \<longrightarrow>
       List_registry r gh =
         Inl (New ''invalid operation: List cannot be called on a registry which has not been warmed up''))"
proof -
  have "set (map snd (filter (matches gh) (items r))) =
          {e \<in> snd ` set (items r).
             gvh_Group (reg_GroupVersionHook e) = gh_Group gh
             \<and> gvh_Hook (reg_GroupVersionHook e) = gh_Hook gh}"
    by (auto simp: matches_def image_iff)
  then show ?thesis
    by (simp add: List_registry_def List_loop_eq)
qed

theorem List_exact_witness:
  "ready warm_registry
   \<and> List_registry warm_registry \<lparr>gh_Group = ''g'', gh_Hook = ''BeforeScale''\<rparr> =
       Inr [registration ''h1'' ''A'' ''g'' ''v1'' ''BeforeScale'',
            registration ''h2'' ''B'' ''g'' ''v2'' ''BeforeScale'']
   \<and> List_registry warm_registry \<lparr>gh_Group = ''g'', gh_Hook = ''AfterProvision''\<rparr> = Inr []
   \<and> List_registry warm_registry \<lparr>gh_Group = [], gh_Hook = ''BeforeScale''\<rparr> =
       Inl (New ''invalid argument: when calling List gh.Group must not be empty'')
   \<and> List_registry warm_registry \<lparr>gh_Group = ''g'', gh_Hook = []\<rparr> =
       Inl (New ''invalid argument: when calling List gh.Hook must not be empty'')
   \<and> List_registry New_registry \<lparr>gh_Group = ''g'', gh_Hook = ''BeforeScale''\<rparr> =
       Inl (New ''invalid operation: List cannot be called on a registry which has not been warmed up'')"
proof -
  have warm: "ready warm_registry" by (simp add: warm_registry_def)
  have cold: "\<not> ready New_registry" by (simp add: New_registry_def)
  have l1: "map snd (filter (matches \<lparr>gh_Group = ''g'', gh_Hook = ''BeforeScale''\<rparr>) (items warm_registry)) =
              [registration ''h1'' ''A'' ''g'' ''v1'' ''BeforeScale'',
               registration ''h2'' ''B'' ''g'' ''v2'' ''BeforeScale'']"
    by (simp add: matches_def warm_registry_def registration_def)
  have l2: "map snd (filter (matches \<lparr>gh_Group = ''g'', gh_Hook = ''AfterProvision''\<rparr>) (items warm_registry)) = []"
    by (simp add: matches_def warm_registry_def registration_def)
  show ?thesis
    using warm cold l1 l2
      List_exact [of warm_registry "\<lparr>gh_Group = ''g'', gh_Hook = ''BeforeScale''\<rparr>"]
      List_exact [of warm_registry "\<lparr>gh_Group = ''g'', gh_Hook = ''AfterProvision''\<rparr>"]
      List_exact [of warm_registry "\<lparr>gh_Group = [], gh_Hook = ''BeforeScale''\<rparr>"]
      List_exact [of warm_registry "\<lparr>gh_Group = ''g'', gh_Hook = []\<rparr>"]
      List_exact [of New_registry "\<lparr>gh_Group = ''g'', gh_Hook = ''BeforeScale''\<rparr>"]
    by simp
qed

text \<open>
  Claim C7. On a ready registry, \<^verbatim>\<open>Remove\<close> of a non-nil config succeeds and deletes the
  entries owned by the config's name and no other entry, whatever group and hook the
  other entries have. When the config owns no entry the registry is unchanged.
\<close>
theorem Remove_exact:
  assumes "ready r" and "wf_registry r"
  shows "Remove r (Some cfg) =
           (None, r\<lparr>items := filter (\<lambda>q. \<not> owned_by (cfg_Name cfg) q) (items r)\<rparr>)
       \<and> ((\<forall>q \<in> set (items r). \<not> owned_by (cfg_Name cfg) q) \<longrightarrow> Remove r (Some cfg) = (None, r))"
proof -
  have "filter (\<lambda>q. \<not> owned_by (cfg_Name cfg) q) (items r) = items r"
    if "\<forall>q \<in> set (items r). \<not> owned_by (cfg_Name cfg) q"
    using that by (simp add: filter_id_conv)
  then show ?thesis
    using assms by (simp add: Remove_def remove_eq)
qed

theorem Remove_exact_witness:
  "ready warm_registry \<and> wf_registry warm_registry
   \<and> Remove warm_registry (Some cfg_A) =
       (None, \<lparr>ready = True, items = [(''h2'', registration ''h2'' ''B'' ''g'' ''v2'' ''BeforeScale'')]\<rparr>)
   \<and> filter (owned_by (cfg_Name (config ''C'' []))) (items warm_registry) = []
   \<and> Remove warm_registry (Some (config ''C'' [])) = (None, warm_registry)"
proof -
  have warm: "ready warm_registry" by (simp add: warm_registry_def)
  have none: "\<forall>q \<in> set (items warm_registry). \<not> owned_by (cfg_Name (config ''C'' [])) q"
    by (simp add: owned_by_def ex_defs)
  have f: "warm_registry\<lparr>items := filter (\<lambda>q. \<not> owned_by (cfg_Name cfg_A) q) (items warm_registry)\<rparr> =
             \<lparr>ready = True, items = [(''h2'', registration ''h2'' ''B'' ''g'' ''v2'' ''BeforeScale'')]\<rparr>"
    by (simp add: owned_by_def ex_defs)
  have none': "filter (owned_by (cfg_Name (config ''C'' []))) (items warm_registry) = []"
    by (simp add: owned_by_def ex_defs)
  show ?thesis
    using warm wf_warm none none' f
      Remove_exact [OF warm wf_warm, of cfg_A]
      Remove_exact [OF warm wf_warm, of "config ''C'' []"]
    by simp
qed

text \<open>
  Claim C2, as stated, fails: \<^verbatim>\<open>add\<close> removes the entries of the config's owner before
  it parses the handlers. On the warmed registry, adding the config \<open>A\<close> with one
  malformed handler returns the parse error and the entry \<open>h1\<close> that \<open>A\<close> owned is gone.
\<close>
theorem Add_malformed_mutates_map:
  "ready warm_registry \<and> \<not> parseable ParseGroupVersion cfg_A_bad
   \<and> map_of (items warm_registry) ''h1'' = Some (registration ''h1'' ''A'' ''g'' ''v1'' ''BeforeScale'')
   \<and> map_of (items (snd (Add ParseGroupVersion warm_registry (Some cfg_A_bad)))) ''h1'' = None
   \<and> items (snd (Add ParseGroupVersion warm_registry (Some cfg_A_bad))) \<noteq> items warm_registry"
  using not_parseable_A_bad
  by (simp add: Add_bad_example) (simp add: ex_defs)

text \<open>
  Claim C2, amended. On a ready registry, \<^verbatim>\<open>Add\<close> of a config with a handler whose API
  version does not parse returns the aggregate of the parse errors and registers none
  of the config's handlers; the entries of every other owner are unchanged, and the
  entries that the config's name owned before are removed.
\<close>
theorem Add_malformed:
  assumes "ready r" and "wf_registry r" and "\<not> parseable pgv cfg"
  shows "Add pgv r (Some cfg) =
           (Some (Aggregate (parse_errors pgv (status_Handlers (cfg_Status cfg)))),
            r\<lparr>items := filter (\<lambda>q. \<not> owned_by (cfg_Name cfg) q) (items r)\<rparr>)
       \<and> parse_errors pgv (status_Handlers (cfg_Status cfg)) \<noteq> []"
  using assms by (simp add: Add_def add_eq remove_eq parseable_def parse_errors_Nil_iff)

theorem Add_malformed_witness:
  "ready warm_registry \<and> wf_registry warm_registry \<and> \<not> parseable ParseGroupVersion cfg_A_bad
   \<and> Add ParseGroupVersion warm_registry (Some cfg_A_bad) =
       (Some (Aggregate [Wrapf (Errorf ''unexpected GroupVersion string: %s'' [''g/v1/x''])
                           ''failed to parse GroupVersion %q'' [''g/v1/x'']]),
        \<lparr>ready = True, items = [(''h2'', registration ''h2'' ''B'' ''g'' ''v2'' ''BeforeScale'')]\<rparr>)"
proof -
  have warm: "ready warm_registry" by (simp add: warm_registry_def)
  have f: "warm_registry\<lparr>items := filter (\<lambda>q. \<not> owned_by (cfg_Name cfg_A_bad) q) (items warm_registry)\<rparr> =
             \<lparr>ready = True, items = [(''h2'', registration ''h2'' ''B'' ''g'' ''v2'' ''BeforeScale'')]\<rparr>"
    by (simp add: owned_by_def ex_defs)
  have e: "parse_errors ParseGroupVersion (status_Handlers (cfg_Status cfg_A_bad)) =
             [Wrapf (Errorf ''unexpected GroupVersion string: %s'' [''g/v1/x''])
                ''failed to parse GroupVersion %q'' [''g/v1/x'']]"
    by (simp add: ex_defs)
  show ?thesis
    using warm wf_warm not_parseable_A_bad f e
      Add_malformed [OF warm wf_warm not_parseable_A_bad]
    by simp
qed

text \<open>
  Claim C8. On a ready registry and for a config whose handlers all parse, \<^verbatim>\<open>Add\<close>
  succeeds, and a second \<^verbatim>\<open>Add\<close> of the same config leaves the same set of
  registrations as the first.
\<close>
theorem Add_idempotent:
  assumes "ready r" and "wf_registry r" and "parseable pgv cfg"
  shows "fst (Add pgv r (Some cfg)) = None
       \<and> fst (Add pgv (snd (Add pgv r (Some cfg))) (Some cfg)) = None
       \<and> set (items (snd (Add pgv (snd (Add pgv r (Some cfg))) (Some cfg)))) =
           set (items (snd (Add pgv r (Some cfg))))
       \<and> map_of (items (snd (Add pgv (snd (Add pgv r (Some cfg))) (Some cfg)))) =
           map_of (items (snd (Add pgv r (Some cfg))))
       \<and> ready (snd (Add pgv (snd (Add pgv r (Some cfg))) (Some cfg)))"
proof -
  let ?r1 = "snd (add pgv r cfg)"
  let ?r2 = "snd (add pgv ?r1 cfg)"
  have r1: "ready ?r1" using assms(1) by (simp add: ready_add)
  have A1: "Add pgv r (Some cfg) = add pgv r cfg" using assms(1) by (simp add: Add_def)
  have A2: "Add pgv ?r1 (Some cfg) = add pgv ?r1 cfg" using r1 by (simp add: Add_def)
  have wf1: "wf_registry ?r1" using assms(2) by (rule wf_add)
  have wf2: "wf_registry ?r2" using wf1 by (rule wf_add)
  have m: "map_of (items ?r2) = map_of (items ?r1)"
    using assms(2,3) by (rule add_twice_map_of)
  have "set (items ?r2) = set (items ?r1)"
    using wf1 wf2 m by (simp add: wf_registry_def map_of_inject_set)
  then show ?thesis
    using assms(3) m r1 by (simp add: A1 A2 fst_add_None_iff ready_add)
qed

theorem Add_idempotent_witness:
  "ready warm_registry \<and> wf_registry warm_registry \<and> parseable ParseGroupVersion cfg_A
   \<and> set (items (snd (Add ParseGroupVersion
        (snd (Add ParseGroupVersion warm_registry (Some cfg_A))) (Some cfg_A)))) =
       set (items (snd (Add ParseGroupVersion warm_registry (Some cfg_A))))"
proof -
  have warm: "ready warm_registry" by (simp add: warm_registry_def)
  show ?thesis
    using warm wf_warm parseable_A Add_idempotent [OF warm wf_warm parseable_A]
    by simp
qed


section \<open>The reconciler: discovery, CA bundle and the readiness gate\<close>

lemma find_upsert: "find (\<lambda>x. ty x = ty c) (upsert ty c xs) = Some c"
  by (induction xs) simp_all

lemma discoverExtensionConfig_failure:
  assumes "Discover e c = Inl err"
  shows "snd (discoverExtensionConfig e c) =
           Some (Wrapf err ''failed to discover ExtensionConfig %s'' [KObj c])"
    and "conditions_Get (fst (discoverExtensionConfig e c)) ExtensionConfigDiscoveredCondition =
           Some \<lparr>cond_Type = ExtensionConfigDiscoveredCondition, cond_Status = ConditionFalse,
                 cond_Reason = ExtensionConfigNotDiscoveredReason,
                 cond_Message = Sprintf ''Error in discovery: %v'' [err]\<rparr>"
    and "status_Handlers (cfg_Status (fst (discoverExtensionConfig e c))) =
           status_Handlers (cfg_Status c)"
proof -
  let ?c = "\<lparr>cond_Type = ExtensionConfigDiscoveredCondition, cond_Status = ConditionFalse,
             cond_Reason = ExtensionConfigNotDiscoveredReason,
             cond_Message = Sprintf ''Error in discovery: %v'' [err]\<rparr>"
  show "snd (discoverExtensionConfig e c) =
          Some (Wrapf err ''failed to discover ExtensionConfig %s'' [KObj c])"
    using assms by (simp add: discoverExtensionConfig_def)
  have "find (\<lambda>x. cond_Type x = cond_Type ?c) (upsert cond_Type ?c xs) = Some ?c" for xs
    by (rule find_upsert)
  then show "conditions_Get (fst (discoverExtensionConfig e c)) ExtensionConfigDiscoveredCondition = Some ?c"
    using assms by (simp add: discoverExtensionConfig_def conditions_Get_def conditions_Set_def)
  show "status_Handlers (cfg_Status (fst (discoverExtensionConfig e c))) =
          status_Handlers (cfg_Status c)"
    using assms
    by (simp add: discoverExtensionConfig_def conditions_Set_def MarkFalse_def v1beta1conditions_Set_def)
qed

lemma reconcile_discover_failure:
  assumes "Discover e c = Inl err"
  shows "reconcile_discover pgv e r original c =
           \<lparr>out_Result = \<lparr>Requeue = False, RequeueAfter = 0\<rparr>,
            out_err = Some (Aggregate
              (Wrapf err ''failed to discover ExtensionConfig %s'' [KObj c]
                 # (case Patch e original (fst (discoverExtensionConfig e c)) of
                      None \<Rightarrow> [] | Some perr \<Rightarrow> [perr]))),
            out_registry = r,
            out_events = [DiscoverCall c, PatchCall original (fst (discoverExtensionConfig e c))]\<rparr>"
  using discoverExtensionConfig_failure(1) [OF assms]
  by (cases "discoverExtensionConfig e c")
     (simp add: reconcile_discover_def patchExtensionConfig_def NewAggregate_def
        split: option.splits)

lemma reconcileCABundle_events:
  "ev \<in> set (snd (snd (reconcileCABundle e c))) \<Longrightarrow> \<exists>n. ev = GetSecret n"
  by (auto simp: reconcileCABundle_def Let_def split: option.splits sum.splits if_splits)

lemma reconcileDelete_events: "out_events (reconcileDelete r c) = [UnregisterCall c]"
  by (simp add: reconcileDelete_def split: prod.splits option.splits)

lemma reconcile_discover_events:
  "DiscoverCall c' \<in> set (out_events (reconcile_discover pgv e r original c)) \<Longrightarrow> c' = c"
  by (auto simp: reconcile_discover_def Let_def split: prod.splits option.splits if_splits)

lemma Reconcile_reaches_discovery:
  assumes "DiscoverCall c \<in> set (out_events (Reconcile pgv e r req))"
  shows "\<exists>original evs.
           Reconcile pgv e r req = with_events evs (reconcile_discover pgv e r original c)
           \<and> (\<forall>ev \<in> set evs. \<forall>x. ev \<noteq> RegisterCall x)"
proof (cases "RuntimeClient_IsReady r")
  case False
  with assms show ?thesis by (simp add: Reconcile_def)
next
  case ready: True
  show ?thesis
  proof (cases "Client_Get e req")
    case (Inl err)
    with assms ready show ?thesis
      by (simp add: Reconcile_def with_events_def reconcileDelete_events split: if_splits)
  next
    case (Inr fetched)
    obtain isPaused requeue perr c1 where
      paused: "EnsurePausedCondition e fetched = ((isPaused, requeue, perr), c1)"
      by (metis prod.exhaust)
    show ?thesis
    proof (cases "perr \<noteq> None \<or> isPaused \<or> requeue")
      case True
      with assms ready Inr paused show ?thesis
        by (auto simp: Reconcile_def)
    next
      case go: False
      show ?thesis
      proof (cases "IsZero (cfg_DeletionTimestamp c1)")
        case False
        with assms ready Inr paused go show ?thesis
          by (simp add: Reconcile_def with_events_def reconcileDelete_events)
      next
        case zero: True
        obtain cerr c2 cevs where ca: "reconcileCABundle e c1 = (cerr, c2, cevs)"
          by (metis prod.exhaust)
        have cevs: "\<forall>ev \<in> set cevs. \<exists>n. ev = GetSecret n"
          using reconcileCABundle_events [of _ e c1] ca by simp
        show ?thesis
        proof (cases cerr)
          case (Some err)
          with assms ready Inr paused go zero ca cevs show ?thesis
            by (auto simp: Reconcile_def)
        next
          case None
          have R: "Reconcile pgv e r req =
                     with_events ([GetConfig req, PausedCheck fetched] @ cevs)
                       (reconcile_discover pgv e r fetched c2)"
            using ready Inr paused go zero ca None by (simp add: Reconcile_def)
          from assms cevs have "DiscoverCall c \<in> set (out_events (reconcile_discover pgv e r fetched c2))"
            unfolding R by (auto simp: with_events_def)
          then have "c = c2" by (rule reconcile_discover_events)
          moreover have "\<forall>ev \<in> set ([GetConfig req, PausedCheck fetched] @ cevs). \<forall>x. ev \<noteq> RegisterCall x"
            using cevs by auto
          ultimately show ?thesis using R by blast
        qed
      qed
    qed
  qed
qed


lemmas env_defs = env_no_ca_key_def env_discovery_fails_def cfg_S_def cfg_A_def config_def handler_def
  InjectCAFromSecretAnnotation_def tlsCAKey_def

text \<open>
  Claim C9. A request that arrives while the registry is not ready is requeued: the
  call returns at once with no error, the registry is unchanged and no call was made to
  the object store, the secret store, the discovery client, the patch helper or the
  registry's add and remove.
\<close>
theorem Reconcile_not_ready:
  assumes "\<not> IsReady r"
  shows "Reconcile pgv e r req =
           \<lparr>out_Result = \<lparr>Requeue = True, RequeueAfter = 0\<rparr>, out_err = None,
            out_registry = r, out_events = []\<rparr>"
  using assms by (simp add: Reconcile_def RuntimeClient_IsReady_def)

theorem Reconcile_not_ready_witness:
  "\<not> IsReady New_registry
   \<and> Reconcile ParseGroupVersion env_discovery_fails New_registry \<lparr>nn_Namespace = [], nn_Name = ''A''\<rparr> =
       \<lparr>out_Result = \<lparr>Requeue = True, RequeueAfter = 0\<rparr>, out_err = None,
        out_registry = New_registry, out_events = []\<rparr>"
proof -
  have cold: "\<not> IsReady New_registry" by (simp add: IsReady_def New_registry_def)
  show ?thesis
    using cold Reconcile_not_ready [OF cold] by simp
qed

text \<open>
  Claim C3, as stated, fails: when the secret named by the annotation has no
  \<^verbatim>\<open>ca.crt\<close> entry, \<^verbatim>\<open>Reconcile\<close> returns the error of \<^verbatim>\<open>reconcileCABundle\<close> at once.
  The calls made are the fetch of the config, the pause check and the fetch of the
  secret: no condition is set and no patch is attempted.
\<close>
theorem ca_key_missing_no_patch:
  "cfg_Annotations cfg_S InjectCAFromSecretAnnotation = Some ''ns/ca''
   \<and> Client_GetSecret env_no_ca_key \<lparr>nn_Namespace = ''ns'', nn_Name = ''ca''\<rparr> = Inr \<lparr>secret_Data = Map.empty\<rparr>
   \<and> out_events (Reconcile ParseGroupVersion env_no_ca_key warm_registry \<lparr>nn_Namespace = [], nn_Name = ''S''\<rparr>) =
       [GetConfig \<lparr>nn_Namespace = [], nn_Name = ''S''\<rparr>, PausedCheck cfg_S,
        GetSecret \<lparr>nn_Namespace = ''ns'', nn_Name = ''ca''\<rparr>]
   \<and> out_err (Reconcile ParseGroupVersion env_no_ca_key warm_registry \<lparr>nn_Namespace = [], nn_Name = ''S''\<rparr>) =
       Some (Errorf ''failed to reconcile caBundle: secret %s does not contain a %q entry'' [''ns/ca'', ''ca.crt''])"
  by (simp add: Reconcile_def RuntimeClient_IsReady_def IsReady_def IsZero_def reconcileCABundle_def
        splitNamespacedName_def warm_registry_def env_defs)

text \<open>
  Claim C3, amended. For a config whose annotation names a secret that exists and lacks
  the \<^verbatim>\<open>ca.crt\<close> entry, a reconciliation cycle that reaches the CA injection returns
  the error that names the secret and the missing key; the registry is unchanged, and
  the cycle ends there, with neither a discovery call nor a condition nor a patch.
\<close>
theorem ca_key_missing:
  assumes "RuntimeClient_IsReady r"
    and "Client_Get e req = Inr fetched"
    and "EnsurePausedCondition e fetched = ((False, False, None), c)"
    and "IsZero (cfg_DeletionTimestamp c)"
    and "cfg_Annotations c InjectCAFromSecretAnnotation = Some secretNameRaw"
    and "nn_Namespace (splitNamespacedName secretNameRaw) \<noteq> []"
    and "nn_Name (splitNamespacedName secretNameRaw) \<noteq> []"
    and "Client_GetSecret e (splitNamespacedName secretNameRaw) = Inr secret"
    and "secret_Data secret tlsCAKey = None"
  shows "Reconcile pgv e r req =
           \<lparr>out_Result = \<lparr>Requeue = False, RequeueAfter = 0\<rparr>,
            out_err = Some (Errorf ''failed to reconcile caBundle: secret %s does not contain a %q entry''
                              [secretNameRaw, ''ca.crt'']),
            out_registry = r,
            out_events = [GetConfig req, PausedCheck fetched,
                          GetSecret (splitNamespacedName secretNameRaw)]\<rparr>"
  using assms by (simp add: Reconcile_def reconcileCABundle_def tlsCAKey_def)

theorem ca_key_missing_witness:
  "RuntimeClient_IsReady warm_registry
   \<and> Client_Get env_no_ca_key \<lparr>nn_Namespace = [], nn_Name = ''S''\<rparr> = Inr cfg_S
   \<and> EnsurePausedCondition env_no_ca_key cfg_S = ((False, False, None), cfg_S)
   \<and> IsZero (cfg_DeletionTimestamp cfg_S)
   \<and> cfg_Annotations cfg_S InjectCAFromSecretAnnotation = Some ''ns/ca''
   \<and> splitNamespacedName ''ns/ca'' = \<lparr>nn_Namespace = ''ns'', nn_Name = ''ca''\<rparr>
   \<and> Client_GetSecret env_no_ca_key (splitNamespacedName ''ns/ca'') = Inr \<lparr>secret_Data = Map.empty\<rparr>
   \<and> secret_Data \<lparr>secret_Data = Map.empty\<rparr> tlsCAKey = (None :: bytes option)
   \<and> Reconcile ParseGroupVersion env_no_ca_key warm_registry \<lparr>nn_Namespace = [], nn_Name = ''S''\<rparr> =
       \<lparr>out_Result = \<lparr>Requeue = False, RequeueAfter = 0\<rparr>,
        out_err = Some (Errorf ''failed to reconcile caBundle: secret %s does not contain a %q entry''
                          [''ns/ca'', ''ca.crt'']),
        out_registry = warm_registry,
        out_events = [GetConfig \<lparr>nn_Namespace = [], nn_Name = ''S''\<rparr>, PausedCheck cfg_S,
                      GetSecret \<lparr>nn_Namespace = ''ns'', nn_Name = ''ca''\<rparr>]\<rparr>"
proof -
  have h1: "RuntimeClient_IsReady warm_registry"
    by (simp add: RuntimeClient_IsReady_def IsReady_def warm_registry_def)
  have h2: "Client_Get env_no_ca_key \<lparr>nn_Namespace = [], nn_Name = ''S''\<rparr> = Inr cfg_S"
    by (simp add: env_no_ca_key_def)
  have h3: "EnsurePausedCondition env_no_ca_key cfg_S = ((False, False, None), cfg_S)"
    by (simp add: env_no_ca_key_def)
  have h4: "IsZero (cfg_DeletionTimestamp cfg_S)"
    by (simp add: IsZero_def env_defs)
  have h5: "cfg_Annotations cfg_S InjectCAFromSecretAnnotation = Some ''ns/ca''"
    by (simp add: env_defs)
  have sp: "splitNamespacedName ''ns/ca'' = \<lparr>nn_Namespace = ''ns'', nn_Name = ''ca''\<rparr>"
    by (simp add: splitNamespacedName_def)
  have h6: "nn_Namespace (splitNamespacedName ''ns/ca'') \<noteq> []"
    and h7: "nn_Name (splitNamespacedName ''ns/ca'') \<noteq> []"
    by (simp_all add: sp)
  have h8: "Client_GetSecret env_no_ca_key (splitNamespacedName ''ns/ca'') = Inr \<lparr>secret_Data = Map.empty\<rparr>"
    by (simp add: env_no_ca_key_def)
  have h9: "secret_Data \<lparr>secret_Data = Map.empty\<rparr> tlsCAKey = (None :: bytes option)"
    by simp
  show ?thesis
    using h1 h2 h3 h4 h5 sp h8 h9
      ca_key_missing [OF h1 h2 h3 h4 h5 h6 h7 h8 h9, of ParseGroupVersion]
    by simp
qed

text \<open>
  Claim C4. In a reconciliation cycle whose discovery call fails, the object that is
  patched carries the Discovered condition set to false with a message made of the
  error, and the handler list of the object that was sent to discovery; the patch is
  attempted, the registry is neither changed nor asked to register, and the cycle
  returns an aggregate error that starts with the wrapped discovery error.
\<close>
theorem discovery_failure:
  assumes "DiscoverCall c \<in> set (out_events (Reconcile pgv e r req))"
    and "Discover e c = Inl err"
  shows "\<exists>original modified perrs.
           PatchCall original modified \<in> set (out_events (Reconcile pgv e r req))
         \<and> conditions_Get modified ExtensionConfigDiscoveredCondition =
             Some \<lparr>cond_Type = ExtensionConfigDiscoveredCondition, cond_Status = ConditionFalse,
                   cond_Reason = ExtensionConfigNotDiscoveredReason,
                   cond_Message = Sprintf ''Error in discovery: %v'' [err]\<rparr>
         \<and> status_Handlers (cfg_Status modified) = status_Handlers (cfg_Status c)
         \<and> out_err (Reconcile pgv e r req) =
             Some (Aggregate (Wrapf err ''failed to discover ExtensionConfig %s'' [KObj c] # perrs))
         \<and> out_Result (Reconcile pgv e r req) = \<lparr>Requeue = False, RequeueAfter = 0\<rparr>
         \<and> out_registry (Reconcile pgv e r req) = r
         \<and> list_all (\<lambda>ev. case ev of RegisterCall x \<Rightarrow> False | _ \<Rightarrow> True)
              (out_events (Reconcile pgv e r req))"
proof -
  from Reconcile_reaches_discovery [OF assms(1)] obtain original evs where
    R: "Reconcile pgv e r req = with_events evs (reconcile_discover pgv e r original c)"
    and evs: "\<forall>ev \<in> set evs. \<forall>x. ev \<noteq> RegisterCall x"
    by blast
  let ?m = "fst (discoverExtensionConfig e c)"
  let ?perrs = "case Patch e original ?m of None \<Rightarrow> [] | Some perr \<Rightarrow> [perr]"
  note D = reconcile_discover_failure [OF assms(2), of pgv r original]
  have "PatchCall original ?m \<in> set (out_events (Reconcile pgv e r req))"
    by (simp add: R D with_events_def)
  moreover have "out_err (Reconcile pgv e r req) =
      Some (Aggregate (Wrapf err ''failed to discover ExtensionConfig %s'' [KObj c] # ?perrs))"
    by (simp add: R D with_events_def)
  moreover have "out_Result (Reconcile pgv e r req) = \<lparr>Requeue = False, RequeueAfter = 0\<rparr>"
    and "out_registry (Reconcile pgv e r req) = r"
    by (simp_all add: R D with_events_def)
  moreover have "list_all (\<lambda>ev. case ev of RegisterCall x \<Rightarrow> False | _ \<Rightarrow> True)
      (out_events (Reconcile pgv e r req))"
    using evs by (auto simp: R D with_events_def list_all_iff split: event.splits)
  ultimately show ?thesis
    using discoverExtensionConfig_failure(2,3) [OF assms(2)] by blast
qed


lemma Reconcile_discovery_fails_example:
  "out_events (Reconcile ParseGroupVersion env_discovery_fails warm_registry \<lparr>nn_Namespace = [], nn_Name = ''A''\<rparr>) =
     [GetConfig \<lparr>nn_Namespace = [], nn_Name = ''A''\<rparr>, PausedCheck cfg_A, DiscoverCall cfg_A,
      PatchCall cfg_A (fst (discoverExtensionConfig env_discovery_fails cfg_A))]"
  by (simp add: Reconcile_def RuntimeClient_IsReady_def IsReady_def IsZero_def reconcileCABundle_def
        reconcile_discover_def discoverExtensionConfig_def patchExtensionConfig_def NewAggregate_def
        with_events_def warm_registry_def env_defs)

theorem discovery_failure_witness:
  "DiscoverCall cfg_A \<in> set (out_events
      (Reconcile ParseGroupVersion env_discovery_fails warm_registry \<lparr>nn_Namespace = [], nn_Name = ''A''\<rparr>))
   \<and> Discover env_discovery_fails cfg_A = Inl (New ''connection refused'')
   \<and> out_Result (Reconcile ParseGroupVersion env_discovery_fails warm_registry \<lparr>nn_Namespace = [], nn_Name = ''A''\<rparr>) =
       \<lparr>Requeue = False, RequeueAfter = 0\<rparr>
   \<and> out_registry (Reconcile ParseGroupVersion env_discovery_fails warm_registry \<lparr>nn_Namespace = [], nn_Name = ''A''\<rparr>) =
       warm_registry
   \<and> out_err (Reconcile ParseGroupVersion env_discovery_fails warm_registry \<lparr>nn_Namespace = [], nn_Name = ''A''\<rparr>) =
       Some (Aggregate [Wrapf (New ''connection refused'') ''failed to discover ExtensionConfig %s'' [''A'']])"
proof -
  have h1: "DiscoverCall cfg_A \<in> set (out_events
      (Reconcile ParseGroupVersion env_discovery_fails warm_registry \<lparr>nn_Namespace = [], nn_Name = ''A''\<rparr>))"
    by (simp add: Reconcile_discovery_fails_example)
  have h2: "Discover env_discovery_fails cfg_A = Inl (New ''connection refused'')"
    by (simp add: env_discovery_fails_def)
  have h3: "out_err (Reconcile ParseGroupVersion env_discovery_fails warm_registry \<lparr>nn_Namespace = [], nn_Name = ''A''\<rparr>) =
       Some (Aggregate [Wrapf (New ''connection refused'') ''failed to discover ExtensionConfig %s'' [''A'']])"
    by (simp add: Reconcile_def RuntimeClient_IsReady_def IsReady_def IsZero_def reconcileCABundle_def
          reconcile_discover_def discoverExtensionConfig_def patchExtensionConfig_def NewAggregate_def
          with_events_def KObj_def warm_registry_def env_defs)
  show ?thesis
    using h1 h2 h3 discovery_failure [OF h1 h2] by blast
qed


end
